theory Spec2Isabelle
  imports Main
begin

section \<open>The popup modal manager\<close>

text \<open>
  Source: \<^verbatim>\<open>src/contexts/PopupModalManagerContext.tsx\<close>, component
  \<^verbatim>\<open>PopupManagerProvider\<close>.

  A modal descriptor has an id, a type tag and a bag of props. The argument of
  \<^verbatim>\<open>queueModal\<close> is a descriptor whose id is optional
  (\<^verbatim>\<open>Omit<Modal, 'id'> & { id?: Modal['id'] }\<close>).
\<close>

record Modal =
  modal_id :: string
  modal_type :: string
  modal_props :: "(string \<times> string) list"

record ModalInput =
  input_id :: "string option"
  input_type :: string
  input_props :: "(string \<times> string) list"

text \<open>
  \<^verbatim>\<open>const newModal = { ...modal, id: modal.id ?? uuidv4() }\<close>. The value that
  \<^verbatim>\<open>uuidv4()\<close> returns at the call is the parameter \<open>uuid\<close>. The operator
  \<^verbatim>\<open>??\<close> falls back only on an absent id: an empty string is kept.
\<close>

definition newModal :: "ModalInput \<Rightarrow> string \<Rightarrow> Modal" where
  "newModal modal uuid =
     \<lparr> modal_id = (case input_id modal of Some i \<Rightarrow> i | None \<Rightarrow> uuid),
       modal_type = input_type modal,
       modal_props = input_props modal \<rparr>"

text \<open>
  \<^verbatim>\<open>Array.prototype.toSpliced(start, deleteCount, ...items)\<close> for a non-negative
  \<open>start\<close> and \<open>deleteCount\<close>: the copy keeps the first \<open>min start len\<close> elements,
  then the items, then what follows the deleted range. \<open>take\<close> and \<open>drop\<close> clamp at
  the length as the JavaScript operation does.
\<close>

definition toSpliced :: "nat \<Rightarrow> nat \<Rightarrow> 'a list \<Rightarrow> 'a list \<Rightarrow> 'a list" where
  "toSpliced start deleteCount items xs = take start xs @ items @ drop (start + deleteCount) xs"

text \<open>
  React's \<^verbatim>\<open>useState\<close>: the setter takes either a value, which replaces the state,
  or an updater function, which is applied to the state produced by the updates queued
  before it. Calls of the setter only queue the action; the next render pass reduces the
  queue, in the order of the calls, starting from the state of the current render.
\<close>

datatype 'a SetStateAction = Value 'a | Updater "'a \<Rightarrow> 'a"

fun apply_action :: "'a SetStateAction \<Rightarrow> 'a \<Rightarrow> 'a" where
  "apply_action (Value v) s = v"
| "apply_action (Updater f) s = f s"

text \<open>
  The state of the provider: \<open>modals\<close> is the value that
  \<^verbatim>\<open>const [modals, setModals] = useState<Modal[]>([])\<close> bound in the latest render
  (the one the closures \<^verbatim>\<open>hideModal\<close> and \<^verbatim>\<open>getModals\<close> see), and
  \<open>pending\<close> the actions passed to \<^verbatim>\<open>setModals\<close> since that render.
\<close>

record PopupManager =
  modals :: "Modal list"
  pending :: "Modal list SetStateAction list"

definition PopupManagerProvider :: PopupManager where
  "PopupManagerProvider = \<lparr> modals = [], pending = [] \<rparr>"

definition setModals :: "Modal list SetStateAction \<Rightarrow> PopupManager \<Rightarrow> PopupManager" where
  "setModals a st = st \<lparr> pending := pending st @ [a] \<rparr>"

definition render :: "PopupManager \<Rightarrow> PopupManager" where
  "render st = \<lparr> modals = fold apply_action (pending st) (modals st), pending = [] \<rparr>"

text \<open>
  \<^verbatim>\<open>setModals(modals => modals.toSpliced(1, 0, newModal))\<close>: an updater; the
  \<open>modals\<close> it names is its own parameter.
\<close>

definition queueModal :: "ModalInput \<Rightarrow> string \<Rightarrow> PopupManager \<Rightarrow> PopupManager" where
  "queueModal modal uuid st =
     setModals (Updater (\<lambda>modals. toSpliced 1 0 [newModal modal uuid] modals)) st"

text \<open>
  \<^verbatim>\<open>setModals(modals.filter(modal => modal.id !== id))\<close>: a value, computed from
  the \<open>modals\<close> of the render that created the closure. Every render creates a new
  \<^verbatim>\<open>hideModal\<close>, and a component can keep and call the one of an earlier render, so
  the captured \<open>modals\<close> is the first parameter: \<open>hideModal (modals st)\<close> is the closure
  of the latest render.
\<close>

definition hideModal :: "Modal list \<Rightarrow> string \<Rightarrow> PopupManager \<Rightarrow> PopupManager" where
  "hideModal captured_modals i st =
     setModals (Value (filter (\<lambda>modal. modal_id modal \<noteq> i) captured_modals)) st"

text \<open>\<^verbatim>\<open>const getModals = () => [...modals]\<close>, of the latest render.\<close>

definition getModals :: "PopupManager \<Rightarrow> Modal list" where
  "getModals st = modals st"

text \<open>\<^verbatim>\<open>const clearModals = () => setModals([])\<close>\<close>

definition clearModals :: "PopupManager \<Rightarrow> PopupManager" where
  "clearModals st = setModals (Value []) st"

text \<open>
  A run of the provider: calls of its operations by the components below it, and the
  render passes of the provider in between. \<open>HideModalCall\<close> goes through the
  \<^verbatim>\<open>hideModal\<close> of the latest render, \<open>KeptHideModalCall\<close> through one kept
  from an earlier render, whose \<open>modals\<close> it carries.
\<close>

datatype action =
    QueueModalCall ModalInput string
  | HideModalCall string
  | KeptHideModalCall "Modal list" string
  | ClearModalsCall
  | RenderPass

fun step :: "action \<Rightarrow> PopupManager \<Rightarrow> PopupManager" where
  "step (QueueModalCall modal uuid) st = queueModal modal uuid st"
| "step (HideModalCall i) st = hideModal (modals st) i st"
| "step (KeptHideModalCall captured_modals i) st = hideModal captured_modals i st"
| "step ClearModalsCall st = clearModals st"
| "step RenderPass st = render st"

definition run :: "action list \<Rightarrow> PopupManager \<Rightarrow> PopupManager" where
  "run acts st = fold step acts st"

fun is_queueModal_or_render :: "action \<Rightarrow> bool" where
  "is_queueModal_or_render (QueueModalCall modal uuid) = True"
| "is_queueModal_or_render RenderPass = True"
| "is_queueModal_or_render (HideModalCall i) = False"
| "is_queueModal_or_render (KeptHideModalCall captured_modals i) = False"
| "is_queueModal_or_render ClearModalsCall = False"

fun is_queueModal :: "action \<Rightarrow> bool" where
  "is_queueModal (QueueModalCall modal uuid) = True"
| "is_queueModal a = False"

text \<open>Example descriptors and states used in the concrete evaluations below.\<close>

definition alert :: "string \<Rightarrow> ModalInput" where
  "alert i = \<lparr> input_id = Some i, input_type = ''alert'', input_props = [] \<rparr>"

definition shown :: "string \<Rightarrow> Modal" where
  "shown i = \<lparr> modal_id = i, modal_type = ''alert'', modal_props = [] \<rparr>"

definition queue_of :: "Modal list \<Rightarrow> PopupManager" where
  "queue_of ms = \<lparr> modals = ms, pending = [] \<rparr>"


section \<open>The profile setup wizard\<close>

text \<open>
  Source: the context module \<^verbatim>\<open>@/contexts/ProfileSetupWizardContext.ts\<close>
  (the last document of \<^verbatim>\<open>src/components/ModalOverlay.tsx\<close>, lines 24 to 32):
  \<^verbatim>\<open>
  export enum ProfileSetupStep {
    STEP_USERNAME = 'STEP_USERNAME',
    STEP_PROFILE_PICTURE = 'STEP_PROFILE_PICTURE',
  }
  export const WizardContext = createContext<IWizardController<ProfileSetupStep> | null>(null);
  \<close>
  A string enum is, at run time, an object with one property per declared member. Reading
  a member is a property read, and a property that the object does not have reads as
  \<^verbatim>\<open>undefined\<close>: a step value is a \<open>string option\<close>, with \<open>None\<close> for
  \<^verbatim>\<open>undefined\<close>.
\<close>

type_synonym step_enum = "(string \<times> string) list"

definition ProfileSetupStep :: step_enum where
  "ProfileSetupStep =
     [(''STEP_USERNAME'', ''STEP_USERNAME''),
      (''STEP_PROFILE_PICTURE'', ''STEP_PROFILE_PICTURE'')]"

definition enum_member :: "step_enum \<Rightarrow> string \<Rightarrow> string option" where
  "enum_member e name = map_of e name"

definition is_declared :: "step_enum \<Rightarrow> string option \<Rightarrow> bool" where
  "is_declared e v = (case v of None \<Rightarrow> False | Some x \<Rightarrow> x \<in> set (map snd e))"

text \<open>
  The controller that a step screen reads from \<^verbatim>\<open>WizardContext\<close>. The interface
  \<^verbatim>\<open>IWizardController\<close> is not among the sources; the screen reaches its setter
  through \<^verbatim>\<open>wizardController?.setCurrentStep?.(...)\<close>, so both the controller and
  the setter may be absent. \<open>'r\<close> is what a call of the setter does.
\<close>

record 'r IWizardController =
  currentStep :: "string option"
  setCurrentStep :: "(string option \<Rightarrow> 'r) option"

text \<open>
  \<^verbatim>\<open>src/routes/ProfileSetupProfilePicture.tsx\<close>, the handler of both the Skip button
  and the successful upload:
  \<^verbatim>\<open>wizardController?.setCurrentStep?.(ProfileSetupStep.STEP_COMPLETE)\<close>.
  The result is the call made on the controller, if any.
\<close>

definition goToNextStep :: "'r IWizardController option \<Rightarrow> 'r option" where
  "goToNextStep wizardController =
     (case wizardController of
        None \<Rightarrow> None
      | Some controller \<Rightarrow>
          (case setCurrentStep controller of
             None \<Rightarrow> None
           | Some call \<Rightarrow> Some (call (enum_member ProfileSetupStep ''STEP_COMPLETE''))))"

text \<open>
  Modelled from the spec: the implementation of the Wizard Controller (the provider
  behind \<^verbatim>\<open>WizardContext\<close>) is missing from the sources. The specification says
  that \<^verbatim>\<open>setCurrentStep(step)\<close> sets the step to exactly the given value, with no
  check that the new step is forward of the old one, and that a step identifier outside
  the declared enumeration, where it is accepted as a string-like value, is rejected
  before the current state is changed.
\<close>

record WizardState =
  wizard_step :: "string option"

datatype wizard_error = InvalidStep

text \<open>
  Modelled from the spec: \<^verbatim>\<open>setCurrentStep\<close> of the missing Wizard Controller.
  A declared step becomes the current step as it is; any other value is rejected and the
  state is not changed.
\<close>

definition WizardController_setCurrentStep ::
  "step_enum \<Rightarrow> string option \<Rightarrow> WizardState \<Rightarrow> wizard_error + WizardState" where
  "WizardController_setCurrentStep e newStep w =
     (if is_declared e newStep then Inr (w \<lparr> wizard_step := newStep \<rparr>)
      else Inl InvalidStep)"

text \<open>
  Modelled from the spec: the read of \<^verbatim>\<open>currentStep\<close> of the missing Wizard
  Controller, which is readable at any time and has no effect.
\<close>

definition WizardController_currentStep :: "WizardState \<Rightarrow> string option" where
  "WizardController_currentStep w = wizard_step w"


section \<open>Route guards\<close>

text \<open>
  The history stack of the router: its entries and the index of the current one.
  \<^verbatim>\<open>navigate(to, { replace: true })\<close> overwrites the current entry;
  without \<^verbatim>\<open>replace\<close> the entries after the current one are dropped and the
  target is pushed.
\<close>

record History =
  entries :: "string list"
  index :: nat

definition navigate :: "string \<Rightarrow> bool \<Rightarrow> History \<Rightarrow> History" where
  "navigate to replace h =
     (if replace then h \<lparr> entries := (entries h)[index h := to] \<rparr>
      else \<lparr> entries = take (index h + 1) (entries h) @ [to], index = index h + 1 \<rparr>)"

definition current_entry :: "History \<Rightarrow> string option" where
  "current_entry h = (if index h < length (entries h) then Some (entries h ! index h) else None)"

text \<open>
  \<^verbatim>\<open>useEffect(effect, deps)\<close>: after the render that mounts the component the
  effect runs; after a later render it runs when the dependencies differ from those of
  the previous render. The state of a mounted page is the dependencies of its previous
  render (\<open>None\<close> before the first) and the history. The guards depend on
  \<^verbatim>\<open>[activeUser, navigate]\<close>, and \<^verbatim>\<open>navigate\<close> is stable, so the dependency
  is the user; equality on the type \<open>'u\<close> stands for the identity of the user object.
\<close>

type_synonym 'u page = "'u option option \<times> History"

definition useEffect :: "(History \<Rightarrow> History) \<Rightarrow> 'u option \<Rightarrow> 'u page \<Rightarrow> 'u page" where
  "useEffect effect deps page =
     (if fst page = Some deps then page else (Some deps, effect (snd page)))"

text \<open>
  \<^verbatim>\<open>src/routes/IndexPage.tsx\<close> (and the later version of the same page, whose
  context names the user \<^verbatim>\<open>user\<close>):
  \<^verbatim>\<open>if (!activeUser) navigate('/signin', { replace: true });\<close>
\<close>

definition IndexPage :: "'u option \<Rightarrow> 'u page \<Rightarrow> 'u page" where
  "IndexPage activeUser page =
     useEffect (\<lambda>h. if activeUser = None then navigate ''/signin'' True h else h) activeUser page"

text \<open>
  \<^verbatim>\<open>src/routes/SignUpPage.tsx\<close> and the sign-in page
  (\<^verbatim>\<open>src/unnamed/part_001\<close>, lines 19 to 24):
  \<^verbatim>\<open>if (activeUser) { navigate('/', { replace: true }); }\<close>
\<close>

definition SignUpPage :: "'u option \<Rightarrow> 'u page \<Rightarrow> 'u page" where
  "SignUpPage activeUser page =
     useEffect (\<lambda>h. if activeUser \<noteq> None then navigate ''/'' True h else h) activeUser page"

definition SignInPage :: "'u option \<Rightarrow> 'u page \<Rightarrow> 'u page" where
  "SignInPage activeUser page =
     useEffect (\<lambda>h. if activeUser \<noteq> None then navigate ''/'' True h else h) activeUser page"

text \<open>
  The renders of one mounted page, each with the user that the session context holds at
  that render, starting from the mount on the history \<open>h\<close>.
\<close>

definition renders :: "('u option \<Rightarrow> 'u page \<Rightarrow> 'u page) \<Rightarrow> 'u option list \<Rightarrow> History \<Rightarrow> 'u page" where
  "renders page_component users h = fold page_component users (None, h)"


section \<open>Errors and the profile service\<close>

text \<open>
  What a JavaScript function throws or a promise rejects with: an \<^verbatim>\<open>Error\<close>
  created by the program, the \<^verbatim>\<open>SyntaxError\<close> of \<^verbatim>\<open>response.json()\<close> on a
  body that is not JSON, the \<^verbatim>\<open>TypeError\<close> of a \<^verbatim>\<open>fetch\<close> that got no
  response (each with its message), or a value that is not an \<^verbatim>\<open>Error\<close>.
\<close>

datatype thrown =
    Error string
  | SyntaxError string
  | TypeError string
  | NonError

fun instanceof_Error :: "thrown \<Rightarrow> bool" where
  "instanceof_Error NonError = False"
| "instanceof_Error e = True"

fun message :: "thrown \<Rightarrow> string option" where
  "message (Error m) = Some m"
| "message (SyntaxError m) = Some m"
| "message (TypeError m) = Some m"
| "message NonError = None"

text \<open>What a promise settles with: the value it resolves to, or what it rejects with.\<close>

datatype 'a settled = Resolved 'a | Rejected thrown

text \<open>The error codes of \<^verbatim>\<open>services/profile.ts\<close>.\<close>

definition ERR_UNEXPECTED_ERROR :: string where
  "ERR_UNEXPECTED_ERROR = ''ERR_UNEXPECTED_ERROR''"

definition ERR_USERNAME_TAKEN :: string where
  "ERR_USERNAME_TAKEN = ''ERR_USERNAME_TAKEN''"

text \<open>
  Modelled from the spec: the constant \<^verbatim>\<open>ERR_SIGNUP_REJECTED\<close> is exported by
  \<^verbatim>\<open>services/auth.ts\<close>, which is missing from the sources; the specification
  names the code.
\<close>

definition ERR_SIGNUP_REJECTED :: string where
  "ERR_SIGNUP_REJECTED = ''ERR_SIGNUP_REJECTED''"

definition has_fixed_code :: "thrown \<Rightarrow> bool" where
  "has_fixed_code e =
     (instanceof_Error e \<and>
      message e \<in> set [Some ERR_UNEXPECTED_ERROR, Some ERR_SIGNUP_REJECTED, Some ERR_USERNAME_TAKEN])"

text \<open>
  A response of \<^verbatim>\<open>fetch\<close>: its status, and what \<^verbatim>\<open>response.json()\<close> settles
  with: the parsed body, or the message of the \<^verbatim>\<open>SyntaxError\<close> when the body does
  not parse. \<^verbatim>\<open>response.ok\<close> is true for the statuses 200 to 299.
\<close>

record 'j Response =
  status :: nat
  json :: "string + 'j"

definition ok :: "'j Response \<Rightarrow> bool" where
  "ok response = (200 \<le> status response \<and> status response \<le> 299)"

text \<open>
  \<^verbatim>\<open>setUsername\<close> of \<^verbatim>\<open>services/profile.ts\<close>
  (\<^verbatim>\<open>src/unnamed/part_001\<close>, lines 177 to 192). The parameter is what the awaited
  \<^verbatim>\<open>fetch\<close> settled with; a rejection of an awaited promise is thrown on.
  \<^verbatim>\<open>
  if (!response.ok) {
    if (response.status === 409) { throw new Error(ERR_USERNAME_TAKEN); }
    throw new Error(ERR_UNEXPECTED_ERROR);
  }
  return await response.json() as ClaimUsernameResponse;
  \<close>
\<close>

definition setUsername :: "thrown + 'j Response \<Rightarrow> thrown + 'j" where
  "setUsername fetched =
     (case fetched of
        Inl e \<Rightarrow> Inl e
      | Inr response \<Rightarrow>
          if \<not> ok response then
            (if status response = 409 then Inl (Error ERR_USERNAME_TAKEN)
             else Inl (Error ERR_UNEXPECTED_ERROR))
          else (case json response of
                  Inl m \<Rightarrow> Inl (SyntaxError m)
                | Inr body \<Rightarrow> Inr body))"


section \<open>The profile picture step\<close>

text \<open>
  The library \<^verbatim>\<open>fetch-mock\<close> keeps one table of routes for the whole page.
  \<^verbatim>\<open>fetchMock.post(matcher, response, options)\<close> adds a route for the matcher;
  called without the option \<^verbatim>\<open>overwriteRoutes\<close>, as here, it throws an error when
  the table already holds a route of the same matcher. \<^verbatim>\<open>fetchMock.restore()\<close>
  empties the table. The table is the list of the matchers of its routes.
\<close>

definition MSG_ROUTE_EXISTS :: string where
  "MSG_ROUTE_EXISTS = ''fetch-mock: Adding route with same name or matcher as existing route.''"

definition fetchMock_post :: "string \<Rightarrow> string list \<Rightarrow> thrown + string list" where
  "fetchMock_post matcher routes =
     (if matcher \<in> set routes then Inl (Error MSG_ROUTE_EXISTS) else Inr (routes @ [matcher]))"

definition fetchMock_restore :: "string list \<Rightarrow> string list" where
  "fetchMock_restore routes = []"

definition PICTURE_ROUTE :: string where
  "PICTURE_ROUTE = ''express:/api/profile/:profileId/picture''"

text \<open>
  \<^verbatim>\<open>handleSubmitResponse\<close> of \<^verbatim>\<open>src/routes/ProfileSetupProfilePicture.tsx\<close>, up to
  the call of the service: the effects it has, in order, what it throws, if anything, and
  the routes of the mock afterwards.
  \<^verbatim>\<open>
  setIsLoading(true);
  fetchMock.post({ url: `express:/api/profile/:profileId/picture` }, ..., { delay: 1000 });
  if (!croppedImage.current) { throw new Error('No image data to submit'); }
  setProfilePicture({ profileId: '1234', image: croppedImage.current }) ...
  \<close>
  \<^verbatim>\<open>croppedImage\<close> is the ref that \<^verbatim>\<open>handleCropConfirm\<close> stores the cropped
  blob in; it is \<^verbatim>\<open>undefined\<close> until then. The mock is set up before the image is
  looked at, and nothing on the throwing path removes its route.
\<close>

datatype 'b picture_effect =
    SetIsLoading bool
  | FetchMockPostPicture
  | CallSetProfilePicture string 'b
  | CallGoToNextStep
  | ConsoleError thrown
  | FetchMockRestorePicture

definition handleSubmitResponse ::
  "'b option \<Rightarrow> string list \<Rightarrow> 'b picture_effect list \<times> thrown option \<times> string list" where
  "handleSubmitResponse croppedImage routes =
     (case fetchMock_post PICTURE_ROUTE routes of
        Inl err \<Rightarrow> ([SetIsLoading True], Some err, routes)
      | Inr routes' \<Rightarrow>
          (case croppedImage of
             None \<Rightarrow>
               ([SetIsLoading True, FetchMockPostPicture],
                Some (Error ''No image data to submit''), routes')
           | Some blob \<Rightarrow>
               ([SetIsLoading True, FetchMockPostPicture, CallSetProfilePicture ''1234'' blob],
                None, routes')))"

text \<open>
  The callbacks on the promise of \<^verbatim>\<open>setProfilePicture\<close>: \<^verbatim>\<open>.then\<close> goes to
  the next step when \<^verbatim>\<open>res.success\<close> holds, \<^verbatim>\<open>.catch\<close> logs the error, and
  \<^verbatim>\<open>.finally\<close> ends the loading state and restores the mock. The promise resolves
  to a response of which only \<^verbatim>\<open>success\<close> is read.
\<close>

definition setProfilePicture_settled ::
  "bool settled \<Rightarrow> string list \<Rightarrow> 'b picture_effect list \<times> string list" where
  "setProfilePicture_settled outcome routes =
     ((case outcome of
         Resolved success \<Rightarrow> (if success then [CallGoToNextStep] else [])
       | Rejected err \<Rightarrow> [ConsoleError err])
      @ [SetIsLoading False, FetchMockRestorePicture],
      fetchMock_restore routes)"


section \<open>The sign-up form\<close>

text \<open>
  \<^verbatim>\<open>String.prototype.trim\<close> removes white space and line terminators from both
  ends. Among the characters below 256 these are tab, line feed, vertical tab, form
  feed, carriage return, space and the no-break space. The schema of the form admits
  only ASCII letters, digits, the space and punctuation in a password, so the data
  that reach the submit handler stay within these characters.
\<close>

definition is_white_space :: "char \<Rightarrow> bool" where
  "is_white_space c =
     (c \<in> set [CHR 0x09, CHR 0x0A, CHR 0x0B, CHR 0x0C, CHR 0x0D, CHR 0x20, CHR 0xA0])"

definition trim :: "string \<Rightarrow> string" where
  "trim s = rev (dropWhile is_white_space (rev (dropWhile is_white_space s)))"

record SignUpFormData =
  email :: string
  password :: string

datatype SignUpResponse =
    SignUpSuccessResponse string
  | SignUpFailureResponse "string option"

definition MSG_ERR_GENERIC :: string where
  "MSG_ERR_GENERIC = ''Unable to create account. Please try again later''"

definition MSG_ERR_REJECTED :: string where
  "MSG_ERR_REJECTED = ''This email and password combination cannot be used''"

definition MSG_WARN_UNTRIMMED :: string where
  "MSG_WARN_UNTRIMMED =
     ''Your password may contain leading or trailing spaces'' @ [CHR 0x0A] @
     ''Resubmit if you'' @ [CHR 0x27] @ ''re certain you want to proceed''"

text \<open>What the handler does to its component and to the page that hosts the form.\<close>

datatype signup_effect =
    SetIsPasswordVisible bool
  | SetUserWarnedUntrimmedPassword bool
  | OnSubmit
  | OnSuccess string
  | OnError string
  | SetError string
  | FetchMockPost nat
  | CreateUser SignUpFormData
  | FetchMockRestore

text \<open>
  The \<^verbatim>\<open>.catch\<close> and \<^verbatim>\<open>.then\<close> callbacks on the promise of
  \<^verbatim>\<open>createUser(data)\<close>. A response that is not a success makes \<^verbatim>\<open>.then\<close> throw
  \<^verbatim>\<open>new Error(ERR_UNEXPECTED_ERROR)\<close>, which the \<^verbatim>\<open>.catch\<close> below it receives.
\<close>

definition createUser_catch :: "thrown \<Rightarrow> signup_effect list" where
  "createUser_catch err =
     (if instanceof_Error err then
        (if message err = Some ERR_SIGNUP_REJECTED
         then [SetError MSG_ERR_REJECTED, OnError MSG_ERR_REJECTED]
         else [SetError MSG_ERR_GENERIC, OnError MSG_ERR_GENERIC])
      else [SetError MSG_ERR_GENERIC, OnError MSG_ERR_GENERIC])"

definition createUser_then :: "SignUpResponse \<Rightarrow> thrown + signup_effect list" where
  "createUser_then res =
     (case res of
        SignUpSuccessResponse i \<Rightarrow> Inr [OnSuccess i]
      | SignUpFailureResponse m \<Rightarrow> Inl (Error ERR_UNEXPECTED_ERROR))"

definition createUser_settled :: "SignUpResponse settled \<Rightarrow> signup_effect list" where
  "createUser_settled outcome =
     (case outcome of
        Resolved res \<Rightarrow>
          (case createUser_then res of Inr effects \<Rightarrow> effects | Inl err \<Rightarrow> createUser_catch err)
      | Rejected err \<Rightarrow> createUser_catch err)"

text \<open>
  \<^verbatim>\<open>formSignUpSubmitHandler\<close> of the sign-up form \<^verbatim>\<open>AuthSignUpForm\<close>
  (\<^verbatim>\<open>src/contexts/PopupModalManagerContext.tsx\<close>, lines 163 to 233). The first argument is the state
  \<^verbatim>\<open>userWarnedUntrimmedPassword\<close> that the handler's closure sees, the last what the
  promise of \<^verbatim>\<open>createUser\<close> settles with, if the handler gets to call it. The result
  is the state after the handler and the effects in order: those of the handler itself,
  then those of the promise callbacks. The handler sets its mock route up and restores
  the mock before it returns, so it never meets a route of an earlier submission.
\<close>

definition formSignUpSubmitHandler ::
  "bool \<Rightarrow> SignUpFormData \<Rightarrow> SignUpResponse settled \<Rightarrow> bool \<times> signup_effect list" where
  "formSignUpSubmitHandler userWarnedUntrimmedPassword data outcome =
     (if \<not> userWarnedUntrimmedPassword \<and> password data \<noteq> trim (password data) then
        (True,
         [SetIsPasswordVisible False, SetUserWarnedUntrimmedPassword True,
          OnError MSG_WARN_UNTRIMMED])
      else
        (userWarnedUntrimmedPassword,
         [SetIsPasswordVisible False, OnSubmit,
          FetchMockPost (if email data \<noteq> ''registered@example.com'' then 200 else 403),
          CreateUser data, FetchMockRestore]
         @ createUser_settled outcome))"

fun is_CreateUser :: "signup_effect \<Rightarrow> bool" where
  "is_CreateUser (CreateUser d) = True"
| "is_CreateUser e = False"

text \<open>
  Successive submissions of the form, each with its data and with what its
  \<^verbatim>\<open>createUser\<close> promise settles with. The component renders again between two
  submissions and \<^verbatim>\<open>useCallback\<close> lists the flag among its dependencies, so each
  handler sees the flag that the submission before it left. The result is all effects in
  order.
\<close>

fun submissions ::
  "bool \<Rightarrow> (SignUpFormData \<times> SignUpResponse settled) list \<Rightarrow> signup_effect list" where
  "submissions warned [] = []"
| "submissions warned ((data, outcome) # rest) =
     snd (formSignUpSubmitHandler warned data outcome)
     @ submissions (fst (formSignUpSubmitHandler warned data outcome)) rest"


section \<open>Properties of the popup modal manager\<close>

lemma render_queueModal:
  "modals (render (queueModal modal uuid st)) =
     toSpliced 1 0 [newModal modal uuid] (modals (render st))"
  by (simp add: render_def queueModal_def setModals_def)

lemma toSpliced_1_0:
  "toSpliced (Suc 0) 0 [x] xs = (case xs of [] \<Rightarrow> [x] | a # rest \<Rightarrow> a # x # rest)"
  by (cases xs) (simp_all add: toSpliced_def)

lemma newModal_alert: "newModal (alert i) uuid = shown i"
  by (simp add: newModal_def alert_def shown_def)

lemma render_queue_of: "render (queue_of ms) = queue_of ms"
  by (simp add: render_def queue_of_def)

text \<open>
  Claim C1. Whatever the state of the provider, the queue observed after
  \<^verbatim>\<open>queueModal\<close> is the queue that would have been observed without the call, with
  the new descriptor inserted at index 1: on an empty queue the new descriptor is the
  head, on a queue \<open>a # rest\<close> it stands right after \<open>a\<close>, which keeps index 0. On the
  queue \<open>[A, B, C]\<close>, queueing \<open>D\<close> gives \<open>[A, D, B, C]\<close>, and on \<open>[A]\<close> it gives
  \<open>[A, D]\<close>.
\<close>

theorem queueModal_inserts_at_index_1:
  "getModals (render (queueModal modal uuid st)) =
     (case getModals (render st) of
        [] \<Rightarrow> [newModal modal uuid]
      | a # rest \<Rightarrow> a # newModal modal uuid # rest)
   \<and> getModals (render (queueModal modal uuid (queue_of []))) = [newModal modal uuid]
   \<and> getModals (render (queueModal modal uuid (queue_of [a]))) = [a, newModal modal uuid]
   \<and> getModals (render (queueModal (alert ''D'') uuid
          (queue_of [shown ''A'', shown ''B'', shown ''C'']))) =
        [shown ''A'', shown ''D'', shown ''B'', shown ''C'']"
proof -
  have ins: "getModals (render (queueModal m u s)) =
      (case getModals (render s) of [] \<Rightarrow> [newModal m u] | a # rest \<Rightarrow> a # newModal m u # rest)"
    for m u s
    by (simp add: getModals_def render_queueModal toSpliced_1_0)
  have obs: "getModals (render (queue_of ms)) = ms" for ms
    by (simp add: getModals_def render_queue_of) (simp add: queue_of_def)
  show ?thesis
    by (simp add: ins obs newModal_alert)
qed


subsection \<open>Sequences of \<^verbatim>\<open>queueModal\<close> calls\<close>

lemma render_render: "modals (render (render st)) = modals (render st)"
  by (simp add: render_def)

lemma length_toSpliced_1_0: "length (toSpliced (Suc 0) 0 [x] xs) = Suc (length xs)"
  by (cases xs) (simp_all add: toSpliced_def)

lemma toSpliced_1_0_Cons: "toSpliced (Suc 0) 0 [x] (a # rest) = a # x # rest"
  by (simp add: toSpliced_def)

lemma run_Nil: "run [] st = st"
  by (simp add: run_def)

lemma run_Cons: "run (a # acts) st = run acts (step a st)"
  by (simp add: run_def)

lemma run_queueModal_length:
  "list_all is_queueModal_or_render acts \<Longrightarrow>
   length (modals (render (run acts st))) =
     length (modals (render st)) + length (filter is_queueModal acts)"
proof (induction acts arbitrary: st)
  case Nil
  then show ?case by (simp add: run_Nil)
next
  case (Cons a acts)
  then have rest: "list_all is_queueModal_or_render acts" by simp
  show ?case
  proof (cases a)
    case (QueueModalCall modal uuid)
    then show ?thesis
      using Cons.IH [OF rest, of "queueModal modal uuid st"]
      by (simp add: run_Cons render_queueModal length_toSpliced_1_0)
  next
    case RenderPass
    then show ?thesis
      using Cons.IH [OF rest, of "render st"] by (simp add: run_Cons render_render)
  next
    case (HideModalCall i)
    with Cons.prems show ?thesis by simp
  next
    case (KeptHideModalCall captured_modals i)
    with Cons.prems show ?thesis by simp
  next
    case ClearModalsCall
    with Cons.prems show ?thesis by simp
  qed
qed

lemma run_queueModal_head:
  "list_all is_queueModal_or_render acts \<Longrightarrow> modals (render st) = a # rest \<Longrightarrow>
   \<exists>rest'. modals (render (run acts st)) = a # rest'"
proof (induction acts arbitrary: st rest)
  case Nil
  then show ?case by (simp add: run_Nil)
next
  case (Cons b acts)
  then have tl: "list_all is_queueModal_or_render acts" by simp
  show ?case
  proof (cases b)
    case (QueueModalCall modal uuid)
    have "modals (render (queueModal modal uuid st)) = a # newModal modal uuid # rest"
      using Cons.prems(2) by (simp add: render_queueModal toSpliced_1_0_Cons)
    from Cons.IH [OF tl this] show ?thesis
      using QueueModalCall by (simp add: run_Cons)
  next
    case RenderPass
    have "modals (render (render st)) = a # rest"
      using Cons.prems(2) by (simp add: render_render)
    from Cons.IH [OF tl this] show ?thesis
      using RenderPass by (simp add: run_Cons)
  next
    case (HideModalCall i)
    with Cons.prems show ?thesis by simp
  next
    case (KeptHideModalCall captured_modals i)
    with Cons.prems show ?thesis by simp
  next
    case ClearModalsCall
    with Cons.prems show ?thesis by simp
  qed
qed

lemma list_all_take: "list_all P xs \<Longrightarrow> list_all P (take k xs)"
  by (induction xs arbitrary: k) (auto simp: take_Cons split: nat.splits)

text \<open>
  Claim C5. Take any run made of \<^verbatim>\<open>queueModal\<close> calls and render passes only,
  started on the empty queue of a fresh provider. After the first \<open>k\<close> actions of the
  run, the queue that \<^verbatim>\<open>getModals\<close> reports in the next render has as many
  descriptors as \<^verbatim>\<open>queueModal\<close> was called (the ids need not even differ for
  that). And once the queue is non-empty, with \<open>a\<close> at index 0, no such run changes
  index 0: the queue reported afterwards is non-empty and its head is still \<open>a\<close>.
\<close>

theorem queueModal_only_length_and_head:
  assumes "list_all is_queueModal_or_render acts"
  shows "length (getModals (render (run (take k acts) PopupManagerProvider))) =
           length (filter is_queueModal (take k acts))
         \<and> (getModals (render st) = a # rest \<longrightarrow>
              getModals (render (run acts st)) \<noteq> [] \<and>
              hd (getModals (render (run acts st))) = a)"
proof -
  have "length (modals (render (run (take k acts) PopupManagerProvider))) =
      length (modals (render PopupManagerProvider)) + length (filter is_queueModal (take k acts))"
    by (rule run_queueModal_length) (rule list_all_take [OF assms])
  moreover have "modals (render PopupManagerProvider) = []"
    by (simp add: render_def PopupManagerProvider_def)
  ultimately have len: "length (getModals (render (run (take k acts) PopupManagerProvider))) =
      length (filter is_queueModal (take k acts))"
    by (simp add: getModals_def)
  have hd: "getModals (render (run acts st)) \<noteq> [] \<and> hd (getModals (render (run acts st))) = a"
    if "getModals (render st) = a # rest"
  proof -
    from that have "modals (render st) = a # rest" by (simp add: getModals_def)
    from run_queueModal_head [OF assms this]
    obtain rest' where "modals (render (run acts st)) = a # rest'" by blast
    then show ?thesis by (simp add: getModals_def)
  qed
  from len hd show ?thesis by blast
qed

theorem queueModal_only_length_and_head_witness:
  "list_all is_queueModal_or_render
     [QueueModalCall (alert ''a'') ''u1'', RenderPass,
      QueueModalCall (alert ''b'') ''u2'', QueueModalCall (alert ''c'') ''u3'']
   \<and> length (getModals (render (run (take 3
        [QueueModalCall (alert ''a'') ''u1'', RenderPass,
         QueueModalCall (alert ''b'') ''u2'', QueueModalCall (alert ''c'') ''u3''])
        PopupManagerProvider))) = 2
   \<and> getModals (render (queue_of [shown ''x''])) = [shown ''x'']
   \<and> hd (getModals (render (run
        [QueueModalCall (alert ''a'') ''u1'', RenderPass,
         QueueModalCall (alert ''b'') ''u2'', QueueModalCall (alert ''c'') ''u3'']
        (queue_of [shown ''x''])))) = shown ''x''"
proof -
  let ?acts = "[QueueModalCall (alert ''a'') ''u1'', RenderPass,
      QueueModalCall (alert ''b'') ''u2'', QueueModalCall (alert ''c'') ''u3'']"
  have ok: "list_all is_queueModal_or_render ?acts" by simp
  have start: "getModals (render (queue_of [shown ''x''])) = [shown ''x'']"
    by (simp add: getModals_def render_def queue_of_def)
  from queueModal_only_length_and_head [OF ok, of 3 "queue_of [shown ''x'']" "shown ''x''" "[]"]
  show ?thesis using ok start by simp
qed


subsection \<open>\<^verbatim>\<open>hideModal\<close>\<close>

lemma render_hideModal:
  "modals (render (hideModal captured_modals i st)) =
     filter (\<lambda>modal. modal_id modal \<noteq> i) captured_modals"
  by (simp add: render_def hideModal_def setModals_def)

lemma length_filter_split:
  "length (filter (\<lambda>x. f x \<noteq> i) xs) + length (filter (\<lambda>x. f x = i) xs) = length xs"
  by (induction xs) simp_all

lemma distinct_one_match:
  "distinct (map f xs) \<Longrightarrow> i \<in> set (map f xs) \<Longrightarrow> length (filter (\<lambda>x. f x = i) xs) = 1"
proof (induction xs)
  case Nil
  then show ?case by simp
next
  case (Cons x xs)
  show ?case
  proof (cases "f x = i")
    case True
    with Cons.prems have "i \<notin> set (map f xs)" by auto
    then have "filter (\<lambda>x. f x = i) xs = []" by (auto simp: filter_empty_conv)
    with True show ?thesis by simp
  next
    case False
    with Cons show ?thesis by auto
  qed
qed

lemma filter_absent: "i \<notin> set (map f xs) \<Longrightarrow> filter (\<lambda>x. f x \<noteq> i) xs = xs"
  by (induction xs) auto

lemma kept_hideModal_example:
  "getModals (run [QueueModalCall (alert ''a'') ''u1'', RenderPass,
      QueueModalCall (alert ''b'') ''u2'', RenderPass] PopupManagerProvider)
     = [shown ''a'', shown ''b'']
   \<and> getModals (run [QueueModalCall (alert ''a'') ''u1'', RenderPass,
      QueueModalCall (alert ''b'') ''u2'', RenderPass,
      KeptHideModalCall [shown ''a''] ''z'', RenderPass] PopupManagerProvider)
     = [shown ''a'']"
  by (simp add: run_def getModals_def render_def queueModal_def hideModal_def setModals_def
      PopupManagerProvider_def toSpliced_def newModal_alert)
    (simp add: shown_def)

text \<open>
  Claim C3, evaluated on the code. On a fresh provider, one event handler calls
  \<^verbatim>\<open>queueModal\<close> with a descriptor of id \<open>m\<close> and then \<^verbatim>\<open>hideModal\<close> with
  the other id \<open>x\<close>. The value that \<^verbatim>\<open>hideModal\<close> passes to the setter is the filtered
  queue of the current render, which does not hold \<open>m\<close> yet, and it replaces the result of
  the queued updater: the next render shows an empty queue. With a render pass between the
  two calls the descriptor is kept.
\<close>

theorem hideModal_after_queueModal_loses_modal:
  "getModals (render (run [QueueModalCall (alert ''m'') ''u'', HideModalCall ''x'']
      PopupManagerProvider)) = []
   \<and> getModals (render (run [QueueModalCall (alert ''m'') ''u'', RenderPass, HideModalCall ''x'']
      PopupManagerProvider)) = [shown ''m'']"
  by (simp add: run_def getModals_def render_def queueModal_def hideModal_def setModals_def
      PopupManagerProvider_def toSpliced_def newModal_alert)
    (simp add: shown_def)

text \<open>
  Claim C4 as stated fails on a queue that holds an id twice, which two
  \<^verbatim>\<open>queueModal\<close> calls with the same explicit id produce: \<^verbatim>\<open>hideModal\<close> filters
  out every descriptor of that id, so the length drops by two.
\<close>

theorem hideModal_duplicate_id_counterexample:
  "getModals (run [QueueModalCall (alert ''a'') ''u1'', QueueModalCall (alert ''a'') ''u2'',
       RenderPass] PopupManagerProvider) = [shown ''a'', shown ''a'']
   \<and> getModals (run [QueueModalCall (alert ''a'') ''u1'', QueueModalCall (alert ''a'') ''u2'',
       RenderPass, HideModalCall ''a'', RenderPass] PopupManagerProvider) = []
   \<and> length (getModals (run [QueueModalCall (alert ''a'') ''u1'',
          QueueModalCall (alert ''a'') ''u2'', RenderPass, HideModalCall ''a'', RenderPass]
          PopupManagerProvider)) + 1
     \<noteq> length (getModals (run [QueueModalCall (alert ''a'') ''u1'',
          QueueModalCall (alert ''a'') ''u2'', RenderPass] PopupManagerProvider))"
proof -
  have q: "run [QueueModalCall (alert ''a'') ''u1'', QueueModalCall (alert ''a'') ''u2'',
       RenderPass] PopupManagerProvider = queue_of [shown ''a'', shown ''a'']"
    by (simp add: run_def render_def queueModal_def setModals_def PopupManagerProvider_def
        toSpliced_def newModal_alert queue_of_def)
  have split: "run [QueueModalCall (alert ''a'') ''u1'', QueueModalCall (alert ''a'') ''u2'',
       RenderPass, HideModalCall ''a'', RenderPass] PopupManagerProvider
     = run [HideModalCall ''a'', RenderPass]
         (run [QueueModalCall (alert ''a'') ''u1'', QueueModalCall (alert ''a'') ''u2'',
            RenderPass] PopupManagerProvider)"
    by (simp add: run_def)
  have h: "getModals (run [HideModalCall ''a'', RenderPass]
      (queue_of [shown ''a'', shown ''a''])) = []"
    by (simp add: run_def getModals_def render_hideModal) (simp add: queue_of_def shown_def)
  show ?thesis
    unfolding split q h by (simp add: getModals_def queue_of_def)
qed

text \<open>
  Claim C4, amended. Take a state of the provider in which no update is pending since
  the latest render, and call \<^verbatim>\<open>hideModal\<close> through the closure of that render,
  which has captured the queue that \<^verbatim>\<open>getModals\<close> reports. For every id, the queue
  reported after the next render is the reported queue without the descriptors of that
  id: the length drops by the number of descriptors that have the id, the queue is
  unchanged when none has it, and the descriptors with other ids are all kept, in their
  order, wherever the removed ones stood. When the ids in the queue are pairwise distinct
  and the id is present, the length drops by exactly one. Calls through a closure kept
  from an earlier render, and calls made while other updates are pending, are those of
  claim C3 and are not covered.
\<close>

theorem hideModal_removes_by_id:
  assumes "pending st = []"
  shows "getModals (render (hideModal (getModals st) i st))
        = filter (\<lambda>modal. modal_id modal \<noteq> i) (getModals st)
   \<and> getModals (render (run [HideModalCall i] st))
        = getModals (render (hideModal (getModals st) i st))
   \<and> length (getModals (render (hideModal (getModals st) i st)))
       + length (filter (\<lambda>modal. modal_id modal = i) (getModals st)) = length (getModals st)
   \<and> (i \<notin> set (map modal_id (getModals st)) \<longrightarrow>
        getModals (render (hideModal (getModals st) i st)) = getModals st)
   \<and> (distinct (map modal_id (getModals st)) \<and> i \<in> set (map modal_id (getModals st)) \<longrightarrow>
        length (getModals (render (hideModal (getModals st) i st))) + 1
          = length (getModals st))
   \<and> filter (\<lambda>modal. modal_id modal \<noteq> i)
        (getModals (render (hideModal (getModals st) i st))) =
       filter (\<lambda>modal. modal_id modal \<noteq> i) (getModals st)"
proof -
  let ?before = "getModals st"
  let ?after = "getModals (render (hideModal (getModals st) i st))"
  have flt: "?after = filter (\<lambda>modal. modal_id modal \<noteq> i) ?before"
    by (simp add: getModals_def render_hideModal)
  have latest: "getModals (render (run [HideModalCall i] st)) = ?after"
    by (simp add: run_def getModals_def)
  have len: "length ?after + length (filter (\<lambda>modal. modal_id modal = i) ?before) = length ?before"
    unfolding flt by (rule length_filter_split)
  have absent: "?after = ?before" if "i \<notin> set (map modal_id ?before)"
    unfolding flt using that by (rule filter_absent)
  have one: "length ?after + 1 = length ?before"
    if "distinct (map modal_id ?before)" "i \<in> set (map modal_id ?before)"
    using len distinct_one_match [OF that] by simp
  have others: "filter (\<lambda>modal. modal_id modal \<noteq> i) ?after =
      filter (\<lambda>modal. modal_id modal \<noteq> i) ?before"
    unfolding flt by simp
  from flt latest len absent one others show ?thesis by blast
qed

theorem hideModal_removes_by_id_witness:
  "pending (queue_of [shown ''a'', shown ''b'', shown ''c'']) = []
   \<and> distinct (map modal_id (getModals (queue_of [shown ''a'', shown ''b'', shown ''c''])))
   \<and> ''b'' \<in> set (map modal_id (getModals (queue_of [shown ''a'', shown ''b'', shown ''c''])))
   \<and> ''z'' \<notin> set (map modal_id (getModals (queue_of [shown ''a'', shown ''b'', shown ''c''])))
   \<and> getModals (render (run [HideModalCall ''b'']
         (queue_of [shown ''a'', shown ''b'', shown ''c''])))
       = [shown ''a'', shown ''c'']
   \<and> length (getModals (render (run [HideModalCall ''b'']
         (queue_of [shown ''a'', shown ''b'', shown ''c''])))) + 1
       = length (getModals (queue_of [shown ''a'', shown ''b'', shown ''c'']))
   \<and> getModals (render (run [HideModalCall ''z'']
         (queue_of [shown ''a'', shown ''b'', shown ''c''])))
       = getModals (queue_of [shown ''a'', shown ''b'', shown ''c''])"
proof -
  let ?st = "queue_of [shown ''a'', shown ''b'', shown ''c'']"
  have idle: "pending ?st = []"
    by (simp add: queue_of_def)
  have ms: "getModals ?st = [shown ''a'', shown ''b'', shown ''c'']"
    by (simp add: getModals_def queue_of_def)
  have sel: "modal_id (shown j) = j" for j
    by (simp add: shown_def)
  from hideModal_removes_by_id [OF idle, of "''b''"] hideModal_removes_by_id [OF idle, of "''z''"]
  show ?thesis
    using idle by (simp add: ms sel)
qed


section \<open>Properties of the profile setup wizard\<close>

text \<open>
  Claim C2, evaluated on the code. The enumeration \<^verbatim>\<open>ProfileSetupStep\<close> declares
  \<^verbatim>\<open>STEP_USERNAME\<close> and \<^verbatim>\<open>STEP_PROFILE_PICTURE\<close> only, so the member
  \<^verbatim>\<open>STEP_COMPLETE\<close> that \<^verbatim>\<open>goToNextStep\<close> reads is undefined and is not a
  declared step: whatever controller the context provides, the Skip button and the
  successful upload call its setter with that undeclared value.
\<close>

theorem goToNextStep_passes_undeclared_step:
  "enum_member ProfileSetupStep ''STEP_COMPLETE'' = None
   \<and> \<not> is_declared ProfileSetupStep (enum_member ProfileSetupStep ''STEP_COMPLETE'')
   \<and> map snd ProfileSetupStep = [''STEP_USERNAME'', ''STEP_PROFILE_PICTURE'']
   \<and> goToNextStep (Some \<lparr> currentStep = Some ''STEP_PROFILE_PICTURE'',
                             setCurrentStep = Some call \<rparr>) = Some (call None)"
proof -
  have undef: "enum_member ProfileSetupStep ''STEP_COMPLETE'' = None"
    by (simp add: enum_member_def ProfileSetupStep_def)
  have undeclared: "\<not> is_declared ProfileSetupStep None"
    by (simp add: is_declared_def)
  have members: "map snd ProfileSetupStep = [''STEP_USERNAME'', ''STEP_PROFILE_PICTURE'']"
    by (simp add: ProfileSetupStep_def)
  have call: "goToNextStep (Some \<lparr> currentStep = Some ''STEP_PROFILE_PICTURE'',
      setCurrentStep = Some call \<rparr>) = Some (call None)"
    by (simp add: goToNextStep_def undef)
  from undef undeclared members call show ?thesis by simp
qed

text \<open>
  Claim C6, on the controller modelled from the specification. For every step \<open>X\<close> of
  the declared enumeration and every state of the wizard, whatever its current step,
  \<^verbatim>\<open>setCurrentStep(X)\<close> is accepted and the current step read afterwards is \<open>X\<close>:
  no order of the steps enters the decision.
\<close>

theorem setCurrentStep_then_currentStep:
  assumes "is_declared e X"
  shows "WizardController_setCurrentStep e X w = Inr (w \<lparr> wizard_step := X \<rparr>)
         \<and> WizardController_currentStep (w \<lparr> wizard_step := X \<rparr>) = X"
  using assms by (simp add: WizardController_setCurrentStep_def WizardController_currentStep_def)

theorem setCurrentStep_then_currentStep_witness:
  "is_declared ProfileSetupStep (Some ''STEP_USERNAME'')
   \<and> WizardController_setCurrentStep ProfileSetupStep (Some ''STEP_USERNAME'')
        \<lparr> wizard_step = Some ''STEP_PROFILE_PICTURE'' \<rparr>
       = Inr \<lparr> wizard_step = Some ''STEP_USERNAME'' \<rparr>
   \<and> WizardController_currentStep \<lparr> wizard_step = Some ''STEP_USERNAME'' \<rparr>
       = Some ''STEP_USERNAME''
   \<and> is_declared (ProfileSetupStep @ [(''STEP_COMPLETE'', ''STEP_COMPLETE'')])
        (Some ''STEP_COMPLETE'')
   \<and> WizardController_setCurrentStep
        (ProfileSetupStep @ [(''STEP_COMPLETE'', ''STEP_COMPLETE'')]) (Some ''STEP_COMPLETE'')
        \<lparr> wizard_step = Some ''STEP_USERNAME'' \<rparr>
       = Inr \<lparr> wizard_step = Some ''STEP_COMPLETE'' \<rparr>"
proof -
  have declared: "is_declared ProfileSetupStep (Some ''STEP_USERNAME'')"
    by (simp add: is_declared_def ProfileSetupStep_def)
  have declared3: "is_declared (ProfileSetupStep @ [(''STEP_COMPLETE'', ''STEP_COMPLETE'')])
      (Some ''STEP_COMPLETE'')"
    by (simp add: is_declared_def)
  from setCurrentStep_then_currentStep [OF declared,
      of "\<lparr> wizard_step = Some ''STEP_PROFILE_PICTURE'' \<rparr>"]
    setCurrentStep_then_currentStep [OF declared3,
      of "\<lparr> wizard_step = Some ''STEP_USERNAME'' \<rparr>"]
  show ?thesis using declared declared3 by simp
qed


section \<open>Properties of the profile picture step\<close>

lemma route_message_differs: "MSG_ROUTE_EXISTS \<noteq> ''No image data to submit''"
  by (simp add: MSG_ROUTE_EXISTS_def)

lemma handleSubmitResponse_registered:
  "PICTURE_ROUTE \<in> set routes \<Longrightarrow>
   handleSubmitResponse croppedImage routes =
     ([SetIsLoading True], Some (Error MSG_ROUTE_EXISTS), routes)"
  by (simp add: handleSubmitResponse_def fetchMock_post_def)

text \<open>
  Claim C9 as stated fails when the route of an earlier call is still in the table of
  the mock. A first call without an image throws \<^verbatim>\<open>No image data to submit\<close> and
  leaves its route behind. The next call throws the error of
  \<^verbatim>\<open>fetchMock.post\<close>, with an image (where the claim says that it proceeds to the
  service call) and without one (where the claim says that the error is
  \<^verbatim>\<open>No image data to submit\<close>).
\<close>

theorem handleSubmitResponse_route_registered_counterexample:
  "handleSubmitResponse (None :: string option) [] =
     ([SetIsLoading True, FetchMockPostPicture], Some (Error ''No image data to submit''),
      [PICTURE_ROUTE])
   \<and> handleSubmitResponse (Some ''blob'') [PICTURE_ROUTE] =
     ([SetIsLoading True], Some (Error MSG_ROUTE_EXISTS), [PICTURE_ROUTE])
   \<and> handleSubmitResponse (None :: string option) [PICTURE_ROUTE] =
     ([SetIsLoading True], Some (Error MSG_ROUTE_EXISTS), [PICTURE_ROUTE])
   \<and> Error MSG_ROUTE_EXISTS \<noteq> Error ''No image data to submit''"
  by (simp add: handleSubmitResponse_registered route_message_differs)
    (simp add: handleSubmitResponse_def fetchMock_post_def)

text \<open>
  Claim C9, amended. When the table of the mock holds no route of an earlier call, as
  on the first call and on any call made after the promise of the previous upload has
  settled, \<^verbatim>\<open>handleSubmitResponse\<close> throws the error
  \<^verbatim>\<open>No image data to submit\<close> exactly when no cropped image has been stored; with
  a stored image it throws nothing and its last effect is the call of
  \<^verbatim>\<open>setProfilePicture\<close> with that image.
\<close>

theorem handleSubmitResponse_throws_iff_no_image:
  assumes "PICTURE_ROUTE \<notin> set routes"
  shows "(fst (snd (handleSubmitResponse (croppedImage :: 'b option) routes))
            = Some (Error ''No image data to submit'')) = (croppedImage = None)
   \<and> (fst (snd (handleSubmitResponse croppedImage routes)) \<noteq> None) = (croppedImage = None)
   \<and> handleSubmitResponse (Some (blob :: 'b)) routes =
       ([SetIsLoading True, FetchMockPostPicture, CallSetProfilePicture ''1234'' blob], None,
        routes @ [PICTURE_ROUTE])
   \<and> handleSubmitResponse (None :: 'b option) routes =
       ([SetIsLoading True, FetchMockPostPicture], Some (Error ''No image data to submit''),
        routes @ [PICTURE_ROUTE])
   \<and> PICTURE_ROUTE \<notin> set (snd (setProfilePicture_settled outcome earlier
        :: 'b picture_effect list \<times> string list))"
proof -
  have post: "fetchMock_post PICTURE_ROUTE routes = Inr (routes @ [PICTURE_ROUTE])"
    using assms by (simp add: fetchMock_post_def)
  have present: "handleSubmitResponse (Some b) routes =
      ([SetIsLoading True, FetchMockPostPicture, CallSetProfilePicture ''1234'' b], None,
       routes @ [PICTURE_ROUTE])" for b :: 'b
    by (simp add: handleSubmitResponse_def post)
  have absent: "handleSubmitResponse (None :: 'b option) routes =
      ([SetIsLoading True, FetchMockPostPicture], Some (Error ''No image data to submit''),
       routes @ [PICTURE_ROUTE])"
    by (simp add: handleSubmitResponse_def post)
  have settled: "PICTURE_ROUTE \<notin> set (snd (setProfilePicture_settled outcome earlier
      :: 'b picture_effect list \<times> string list))"
    by (simp add: setProfilePicture_settled_def fetchMock_restore_def)
  have iff: "(fst (snd (handleSubmitResponse croppedImage routes))
        = Some (Error ''No image data to submit'')) = (croppedImage = None)
      \<and> (fst (snd (handleSubmitResponse croppedImage routes)) \<noteq> None) = (croppedImage = None)"
    by (cases croppedImage) (simp_all add: present absent)
  from iff present [of blob] absent settled show ?thesis by simp
qed

theorem handleSubmitResponse_throws_iff_no_image_witness:
  "PICTURE_ROUTE \<notin> set []
   \<and> handleSubmitResponse (Some ''blob'') [] =
       ([SetIsLoading True, FetchMockPostPicture, CallSetProfilePicture ''1234'' ''blob''], None,
        [PICTURE_ROUTE])
   \<and> handleSubmitResponse (None :: string option) [] =
       ([SetIsLoading True, FetchMockPostPicture], Some (Error ''No image data to submit''),
        [PICTURE_ROUTE])
   \<and> snd (setProfilePicture_settled (Resolved True) [PICTURE_ROUTE]
        :: string picture_effect list \<times> string list) = []
   \<and> fst (snd (handleSubmitResponse (Some ''blob'')
        (snd (setProfilePicture_settled (Resolved True) [PICTURE_ROUTE]
          :: string picture_effect list \<times> string list)))) = None"
proof -
  have fresh: "PICTURE_ROUTE \<notin> set []" by simp
  have restored: "snd (setProfilePicture_settled (Resolved True) [PICTURE_ROUTE]
      :: string picture_effect list \<times> string list) = []"
    by (simp add: setProfilePicture_settled_def fetchMock_restore_def)
  from handleSubmitResponse_throws_iff_no_image
      [OF fresh, of "Some ''blob''" "''blob''" "Resolved True" "[PICTURE_ROUTE]"]
  show ?thesis unfolding restored by simp
qed


section \<open>Properties of the sign-up form\<close>

lemma trim_example: "trim '' secret12'' = ''secret12''"
  by (simp add: trim_def is_white_space_def)

lemma warning_not_in_settled:
  "OnError MSG_WARN_UNTRIMMED \<notin> set (createUser_settled outcome)"
  "SetUserWarnedUntrimmedPassword b \<notin> set (createUser_settled outcome)"
  by (auto simp: createUser_settled_def createUser_then_def createUser_catch_def
      MSG_WARN_UNTRIMMED_def MSG_ERR_GENERIC_def MSG_ERR_REJECTED_def
      split: settled.splits SignUpResponse.splits)

lemma handler_proceeds:
  "warned \<or> password data = trim (password data) \<Longrightarrow>
   formSignUpSubmitHandler warned data outcome =
     (warned,
      [SetIsPasswordVisible False, OnSubmit,
       FetchMockPost (if email data \<noteq> ''registered@example.com'' then 200 else 403),
       CreateUser data, FetchMockRestore] @ createUser_settled outcome)"
  by (auto simp: formSignUpSubmitHandler_def)

lemma handler_warns:
  "\<not> warned \<Longrightarrow> password data \<noteq> trim (password data) \<Longrightarrow>
   formSignUpSubmitHandler warned data outcome =
     (True, [SetIsPasswordVisible False, SetUserWarnedUntrimmedPassword True,
             OnError MSG_WARN_UNTRIMMED])"
  by (simp add: formSignUpSubmitHandler_def)

lemma no_warning_when_proceeding:
  "warned \<or> password data = trim (password data) \<Longrightarrow>
   count_list (snd (formSignUpSubmitHandler warned data outcome)) (OnError MSG_WARN_UNTRIMMED) = 0"
  by (simp add: handler_proceeds warning_not_in_settled)

lemma submissions_warned:
  "count_list (submissions True subs) (OnError MSG_WARN_UNTRIMMED) = 0"
proof (induction subs)
  case Nil
  show ?case by simp
next
  case (Cons sub subs)
  obtain data outcome where sub: "sub = (data, outcome)" by (cases sub)
  have "fst (formSignUpSubmitHandler True data outcome) = True"
    by (simp add: handler_proceeds)
  with Cons.IH show ?case
    by (simp add: sub no_warning_when_proceeding)
qed

lemma submissions_at_most_one_warning:
  "count_list (submissions warned subs) (OnError MSG_WARN_UNTRIMMED) \<le> 1"
proof (induction subs arbitrary: warned)
  case Nil
  show ?case by simp
next
  case (Cons sub subs)
  obtain data outcome where sub: "sub = (data, outcome)" by (cases sub)
  show ?case
  proof (cases "warned \<or> password data = trim (password data)")
    case True
    then have "fst (formSignUpSubmitHandler warned data outcome) = warned"
      by (simp add: handler_proceeds)
    with Cons.IH [of warned] True show ?thesis
      by (simp add: sub no_warning_when_proceeding)
  next
    case False
    then have "formSignUpSubmitHandler warned data outcome =
        (True, [SetIsPasswordVisible False, SetUserWarnedUntrimmedPassword True,
                OnError MSG_WARN_UNTRIMMED])"
      by (simp add: handler_warns)
    then show ?thesis
      by (simp add: sub submissions_warned)
  qed
qed

text \<open>
  Claim C10. A submission whose password differs from its trimmed value, made while
  the warning flag is not set, only masks the password field, sets the flag and reports
  the warning through \<^verbatim>\<open>onError\<close>: neither \<^verbatim>\<open>onSubmit\<close> nor
  \<^verbatim>\<open>createUser\<close> is called. A submission made with the flag set calls
  \<^verbatim>\<open>onSubmit\<close> and \<^verbatim>\<open>createUser\<close> with the data as they are, whatever the
  password, leaves the flag set, and neither sets the flag again nor repeats the warning:
  its effects are the masking of the field, \<^verbatim>\<open>onSubmit\<close>, the mock, the call of
  \<^verbatim>\<open>createUser\<close> and the callbacks of its promise. So the warning is one-time: in
  any sequence of submissions of a form, whatever the data and the answers of the
  service, it is reported at most once.
\<close>

theorem formSignUpSubmitHandler_warns_once:
  "(\<not> warned \<and> password data \<noteq> trim (password data) \<longrightarrow>
      formSignUpSubmitHandler warned data outcome =
        (True, [SetIsPasswordVisible False, SetUserWarnedUntrimmedPassword True,
                OnError MSG_WARN_UNTRIMMED])
      \<and> OnSubmit \<notin> set (snd (formSignUpSubmitHandler warned data outcome))
      \<and> \<not> list_ex is_CreateUser (snd (formSignUpSubmitHandler warned data outcome)))
   \<and> (warned \<longrightarrow>
      fst (formSignUpSubmitHandler warned data outcome) = True
      \<and> OnSubmit \<in> set (snd (formSignUpSubmitHandler warned data outcome))
      \<and> CreateUser data \<in> set (snd (formSignUpSubmitHandler warned data outcome))
      \<and> snd (formSignUpSubmitHandler warned data outcome) =
          [SetIsPasswordVisible False, OnSubmit,
           FetchMockPost (if email data \<noteq> ''registered@example.com'' then 200 else 403),
           CreateUser data, FetchMockRestore] @ createUser_settled outcome
      \<and> OnError MSG_WARN_UNTRIMMED \<notin> set (snd (formSignUpSubmitHandler warned data outcome))
      \<and> SetUserWarnedUntrimmedPassword True
          \<notin> set (snd (formSignUpSubmitHandler warned data outcome)))
   \<and> count_list (submissions False subs) (OnError MSG_WARN_UNTRIMMED) \<le> 1"
proof -
  have first: "formSignUpSubmitHandler warned data outcome =
        (True, [SetIsPasswordVisible False, SetUserWarnedUntrimmedPassword True,
                OnError MSG_WARN_UNTRIMMED])
      \<and> OnSubmit \<notin> set (snd (formSignUpSubmitHandler warned data outcome))
      \<and> \<not> list_ex is_CreateUser (snd (formSignUpSubmitHandler warned data outcome))"
    if "\<not> warned" "password data \<noteq> trim (password data)"
    using that by (simp add: handler_warns)
  have later: "fst (formSignUpSubmitHandler warned data outcome) = True
      \<and> OnSubmit \<in> set (snd (formSignUpSubmitHandler warned data outcome))
      \<and> CreateUser data \<in> set (snd (formSignUpSubmitHandler warned data outcome))
      \<and> snd (formSignUpSubmitHandler warned data outcome) =
          [SetIsPasswordVisible False, OnSubmit,
           FetchMockPost (if email data \<noteq> ''registered@example.com'' then 200 else 403),
           CreateUser data, FetchMockRestore] @ createUser_settled outcome
      \<and> OnError MSG_WARN_UNTRIMMED \<notin> set (snd (formSignUpSubmitHandler warned data outcome))
      \<and> SetUserWarnedUntrimmedPassword True
          \<notin> set (snd (formSignUpSubmitHandler warned data outcome))"
    if warned
    using that by (simp add: handler_proceeds warning_not_in_settled)
  from first later submissions_at_most_one_warning [of False subs] show ?thesis by blast
qed

theorem formSignUpSubmitHandler_warns_once_witness:
  "password \<lparr> email = ''new@example.com'', password = '' secret12'' \<rparr>
     \<noteq> trim (password \<lparr> email = ''new@example.com'', password = '' secret12'' \<rparr>)
   \<and> formSignUpSubmitHandler False
        \<lparr> email = ''new@example.com'', password = '' secret12'' \<rparr>
        (Resolved (SignUpSuccessResponse ''1234''))
       = (True, [SetIsPasswordVisible False, SetUserWarnedUntrimmedPassword True,
                 OnError MSG_WARN_UNTRIMMED])
   \<and> snd (formSignUpSubmitHandler True
        \<lparr> email = ''new@example.com'', password = '' secret12'' \<rparr>
        (Resolved (SignUpSuccessResponse ''1234'')))
       = [SetIsPasswordVisible False, OnSubmit, FetchMockPost 200,
          CreateUser \<lparr> email = ''new@example.com'', password = '' secret12'' \<rparr>,
          FetchMockRestore, OnSuccess ''1234'']
   \<and> OnError MSG_WARN_UNTRIMMED \<notin> set (snd (formSignUpSubmitHandler True
        \<lparr> email = ''new@example.com'', password = '' secret12'' \<rparr>
        (Resolved (SignUpSuccessResponse ''1234''))))
   \<and> count_list (submissions False
        [(\<lparr> email = ''new@example.com'', password = '' secret12'' \<rparr>,
          Resolved (SignUpSuccessResponse ''1234'')),
         (\<lparr> email = ''new@example.com'', password = '' secret12'' \<rparr>,
          Resolved (SignUpSuccessResponse ''1234''))]) (OnError MSG_WARN_UNTRIMMED) \<le> 1"
proof -
  let ?data = "\<lparr> email = ''new@example.com'', password = '' secret12'' \<rparr>"
  let ?outcome = "Resolved (SignUpSuccessResponse ''1234'')"
  have untrimmed: "password ?data \<noteq> trim (password ?data)"
    by (simp add: trim_example)
  have settled: "createUser_settled ?outcome = [OnSuccess ''1234'']"
    by (simp add: createUser_settled_def createUser_then_def)
  from formSignUpSubmitHandler_warns_once
        [of False ?data ?outcome "[(?data, ?outcome), (?data, ?outcome)]"]
      formSignUpSubmitHandler_warns_once
        [of True ?data ?outcome "[(?data, ?outcome), (?data, ?outcome)]"]
  show ?thesis using untrimmed by (simp add: settled)
qed


section \<open>Properties of the route guards\<close>

lemma navigate_replace_twice: "navigate t True (navigate t True h) = navigate t True h"
  by (simp add: navigate_def)

lemma guard_step:
  fixes c :: "'u option \<Rightarrow> bool"
  assumes inv: "(snd p = h \<or> snd p = navigate t True h)
      \<and> (\<forall>v. fst p = Some v \<and> c v \<longrightarrow> snd p = navigate t True h)"
    and q: "q = useEffect (\<lambda>h'. if c u then navigate t True h' else h') u p"
  shows "(snd q = h \<or> snd q = navigate t True h)
      \<and> (\<forall>v. fst q = Some v \<and> c v \<longrightarrow> snd q = navigate t True h)
      \<and> fst q = Some u"
proof (cases "fst p = Some u")
  case True
  then have "q = p" by (simp add: q useEffect_def)
  with inv True show ?thesis by simp
next
  case False
  then have q': "q = (Some u, if c u then navigate t True (snd p) else snd p)"
    by (simp add: q useEffect_def)
  from inv have "navigate t True (snd p) = navigate t True h"
    by (auto simp: navigate_replace_twice)
  with inv q' show ?thesis by auto
qed

lemma guard_renders:
  fixes c :: "'u option \<Rightarrow> bool"
  shows "(snd (fold (\<lambda>u. useEffect (\<lambda>h'. if c u then navigate t True h' else h') u) users (None, h)) = h
        \<or> snd (fold (\<lambda>u. useEffect (\<lambda>h'. if c u then navigate t True h' else h') u) users (None, h))
            = navigate t True h)
      \<and> (\<forall>v. fst (fold (\<lambda>u. useEffect (\<lambda>h'. if c u then navigate t True h' else h') u) users (None, h))
              = Some v \<and> c v \<longrightarrow>
            snd (fold (\<lambda>u. useEffect (\<lambda>h'. if c u then navigate t True h' else h') u) users (None, h))
              = navigate t True h)
      \<and> (users \<noteq> [] \<longrightarrow>
            fst (fold (\<lambda>u. useEffect (\<lambda>h'. if c u then navigate t True h' else h') u) users (None, h))
              = Some (last users))"
proof (induction users rule: rev_induct)
  case Nil
  show ?case by simp
next
  case (snoc u users)
  let ?p = "fold (\<lambda>u. useEffect (\<lambda>h'. if c u then navigate t True h' else h') u) users (None, h)"
  from snoc.IH have inv: "(snd ?p = h \<or> snd ?p = navigate t True h)
      \<and> (\<forall>v. fst ?p = Some v \<and> c v \<longrightarrow> snd ?p = navigate t True h)"
    by blast
  let ?q = "useEffect (\<lambda>h'. if c u then navigate t True h' else h') u ?p"
  have unfold: "fold (\<lambda>u. useEffect (\<lambda>h'. if c u then navigate t True h' else h') u)
      (users @ [u]) (None, h) = ?q"
    by simp
  have last: "last (users @ [u]) = u" by simp
  from guard_step [OF inv refl, of u] show ?case
    unfolding unfold last by blast
qed

lemma guard_last:
  fixes c :: "'u option \<Rightarrow> bool"
  assumes "users \<noteq> []" "c (last users)"
  shows "snd (fold (\<lambda>u. useEffect (\<lambda>h'. if c u then navigate t True h' else h') u) users (None, h))
           = navigate t True h"
  using guard_renders [of c t users h] assms by blast

text \<open>
  Claim C7. Take the renders of a mounted page, in any number and with any users,
  from its mount on. If the user is absent at the latest render of the index page, the
  history is the one at mount with its current entry replaced by the sign-in route: no
  entry was added, so going back cannot reach the index page. If a user is present at
  the latest render of the sign-up or of the sign-in page, the history is the one at
  mount with its current entry replaced by the home route.
\<close>

theorem route_guards_replace_entry:
  "(users \<noteq> [] \<and> last users = None \<longrightarrow>
      snd (renders IndexPage users h) = navigate ''/signin'' True h)
   \<and> (users \<noteq> [] \<and> last users \<noteq> None \<longrightarrow>
      snd (renders SignUpPage users h) = navigate ''/'' True h
      \<and> snd (renders SignInPage users h) = navigate ''/'' True h)
   \<and> entries (navigate to True h) = (entries h)[index h := to]
   \<and> index (navigate to True h) = index h
   \<and> (index h < length (entries h) \<longrightarrow> current_entry (navigate to True h) = Some to)"
proof -
  have index_page: "IndexPage =
      (\<lambda>u. useEffect (\<lambda>h'. if u = None then navigate ''/signin'' True h' else h') u)"
    by (rule ext)+ (simp add: IndexPage_def)
  have sign_up: "SignUpPage =
      (\<lambda>u. useEffect (\<lambda>h'. if u \<noteq> None then navigate ''/'' True h' else h') u)"
    by (rule ext)+ (simp add: SignUpPage_def)
  have sign_in: "SignInPage =
      (\<lambda>u. useEffect (\<lambda>h'. if u \<noteq> None then navigate ''/'' True h' else h') u)"
    by (rule ext)+ (simp add: SignInPage_def)
  have absent: "snd (renders IndexPage users h) = navigate ''/signin'' True h"
    if "users \<noteq> []" "last users = None"
    unfolding renders_def index_page
    using guard_last [of users "\<lambda>u. u = None" "''/signin''" h] that by simp
  have present: "snd (renders SignUpPage users h) = navigate ''/'' True h
      \<and> snd (renders SignInPage users h) = navigate ''/'' True h"
    if "users \<noteq> []" "last users \<noteq> None"
    unfolding renders_def sign_up sign_in
    using guard_last [of users "\<lambda>u. u \<noteq> None" "''/''" h] that by simp
  have nav: "entries (navigate to True h) = (entries h)[index h := to]
      \<and> index (navigate to True h) = index h
      \<and> (index h < length (entries h) \<longrightarrow> current_entry (navigate to True h) = Some to)"
    by (simp add: navigate_def current_entry_def)
  from absent present nav show ?thesis by blast
qed

theorem route_guards_replace_entry_witness:
  "snd (renders IndexPage [Some ''1234'', None] \<lparr> entries = [''/signin'', ''/''], index = 1 \<rparr>)
     = \<lparr> entries = [''/signin'', ''/signin''], index = 1 \<rparr>
   \<and> snd (renders SignUpPage [None, Some ''1234'']
        \<lparr> entries = [''/signin'', ''/signup''], index = 1 \<rparr>)
     = \<lparr> entries = [''/signin'', ''/''], index = 1 \<rparr>
   \<and> snd (renders SignInPage [None, Some ''1234''] \<lparr> entries = [''/signin''], index = 0 \<rparr>)
     = \<lparr> entries = [''/''], index = 0 \<rparr>
   \<and> current_entry (navigate ''/signin'' True \<lparr> entries = [''/signin'', ''/''], index = 1 \<rparr>)
     = Some ''/signin''"
  using route_guards_replace_entry
      [of "[Some ''1234'', None]" "\<lparr> entries = [''/signin'', ''/''], index = 1 \<rparr>" "''/signin''"]
    route_guards_replace_entry
      [of "[None, Some ''1234'']" "\<lparr> entries = [''/signin'', ''/signup''], index = 1 \<rparr>" "''/''"]
    route_guards_replace_entry
      [of "[None, Some ''1234'']" "\<lparr> entries = [''/signin''], index = 0 \<rparr>" "''/''"]
  by (simp add: navigate_def)



section \<open>Properties of the service calls and of the failure messages\<close>

lemma codes_differ:
  "ERR_USERNAME_TAKEN \<noteq> ERR_UNEXPECTED_ERROR" "ERR_UNEXPECTED_ERROR \<noteq> ERR_USERNAME_TAKEN"
  by (simp_all add: ERR_USERNAME_TAKEN_def ERR_UNEXPECTED_ERROR_def)

lemma conflict_not_ok: "status response = 409 \<Longrightarrow> \<not> ok response"
  by (simp add: ok_def)

lemma setUsername_not_ok:
  "\<not> ok response \<Longrightarrow>
   setUsername (Inr response) =
     Inl (Error (if status response = 409 then ERR_USERNAME_TAKEN else ERR_UNEXPECTED_ERROR))"
  by (simp add: setUsername_def)

lemma setUsername_ok:
  "ok response \<Longrightarrow>
   setUsername (Inr response) =
     (case json response of Inl m \<Rightarrow> Inl (SyntaxError m) | Inr body \<Rightarrow> Inr body)"
  by (simp add: setUsername_def)

lemma setUsername_taken_iff:
  "(setUsername (Inr response) = Inl (Error ERR_USERNAME_TAKEN)) = (status response = 409)"
proof (cases "ok response")
  case True
  then have "status response \<noteq> 409" by (auto dest: conflict_not_ok)
  with True show ?thesis by (simp add: setUsername_ok split: sum.splits)
next
  case False
  then show ?thesis by (simp add: setUsername_not_ok codes_differ)
qed

text \<open>
  Claim C8 as stated fails where a failure comes from the runtime and not from the
  checks of the service: on a response with status 200 whose body is not JSON,
  \<^verbatim>\<open>response.json()\<close> rejects and \<^verbatim>\<open>setUsername\<close> throws that
  \<^verbatim>\<open>SyntaxError\<close> on, with the message of the parser and not one of the three codes.
\<close>

theorem setUsername_unparsable_body_counterexample:
  "setUsername (Inr \<lparr> status = 200, json = Inl ''Unexpected end of JSON input'' \<rparr>)
     = (Inl (SyntaxError ''Unexpected end of JSON input'') :: thrown + string)
   \<and> \<not> has_fixed_code (SyntaxError ''Unexpected end of JSON input'')"
  by (simp add: setUsername_def ok_def has_fixed_code_def ERR_UNEXPECTED_ERROR_def
      ERR_SIGNUP_REJECTED_def ERR_USERNAME_TAKEN_def)

text \<open>
  Claim C8, amended. \<^verbatim>\<open>setUsername\<close> signals every response that is not ok by an
  \<^verbatim>\<open>Error\<close> with one of the fixed codes: \<^verbatim>\<open>ERR_USERNAME_TAKEN\<close> exactly when the
  status is 409, \<^verbatim>\<open>ERR_UNEXPECTED_ERROR\<close> for every other status that is not ok. A
  rejection of \<^verbatim>\<open>fetch\<close>, and the rejection of \<^verbatim>\<open>response.json()\<close> on an ok
  response whose body does not parse, are thrown on as they are. In the sign-up form a
  response of \<^verbatim>\<open>createUser\<close> that is not a success becomes
  \<^verbatim>\<open>Error(ERR_UNEXPECTED_ERROR)\<close>, and every failure reaches the user as one of two
  fixed messages: the rejection message exactly when the value caught is an error with
  the message \<^verbatim>\<open>ERR_SIGNUP_REJECTED\<close>, the generic message otherwise.
\<close>

theorem service_failures_signalled:
  "(\<not> ok (response :: 'j Response) \<longrightarrow>
      setUsername (Inr response) =
        Inl (Error (if status response = 409 then ERR_USERNAME_TAKEN else ERR_UNEXPECTED_ERROR))
      \<and> has_fixed_code
          (Error (if status response = 409 then ERR_USERNAME_TAKEN else ERR_UNEXPECTED_ERROR)))
   \<and> (setUsername (Inr response) = Inl (Error ERR_USERNAME_TAKEN)) = (status response = 409)
   \<and> (ok response \<longrightarrow>
      setUsername (Inr response) =
        (case json response of Inl m \<Rightarrow> Inl (SyntaxError m) | Inr body \<Rightarrow> Inr body))
   \<and> setUsername (Inl e :: thrown + 'j Response) = Inl e
   \<and> createUser_then (SignUpFailureResponse m) = Inl (Error ERR_UNEXPECTED_ERROR)
   \<and> createUser_settled (Resolved (SignUpFailureResponse m)) =
       [SetError MSG_ERR_GENERIC, OnError MSG_ERR_GENERIC]
   \<and> createUser_settled (Rejected err) =
       (if instanceof_Error err \<and> message err = Some ERR_SIGNUP_REJECTED
        then [SetError MSG_ERR_REJECTED, OnError MSG_ERR_REJECTED]
        else [SetError MSG_ERR_GENERIC, OnError MSG_ERR_GENERIC])"
proof -
  have code: "has_fixed_code
      (Error (if status response = 409 then ERR_USERNAME_TAKEN else ERR_UNEXPECTED_ERROR))"
    by (simp add: has_fixed_code_def)
  have thrown_on: "setUsername (Inl e :: thrown + 'j Response) = Inl e"
    by (simp add: setUsername_def)
  have normalised: "createUser_then (SignUpFailureResponse m) = Inl (Error ERR_UNEXPECTED_ERROR)"
    by (simp add: createUser_then_def)
  have generic: "createUser_settled (Resolved (SignUpFailureResponse m)) =
      [SetError MSG_ERR_GENERIC, OnError MSG_ERR_GENERIC]"
    by (simp add: createUser_settled_def normalised createUser_catch_def
        ERR_UNEXPECTED_ERROR_def ERR_SIGNUP_REJECTED_def)
  have rejected: "createUser_settled (Rejected err) =
      (if instanceof_Error err \<and> message err = Some ERR_SIGNUP_REJECTED
       then [SetError MSG_ERR_REJECTED, OnError MSG_ERR_REJECTED]
       else [SetError MSG_ERR_GENERIC, OnError MSG_ERR_GENERIC])"
    by (simp add: createUser_settled_def createUser_catch_def)
  from setUsername_not_ok [of response] setUsername_ok [of response]
    setUsername_taken_iff [of response] code thrown_on normalised generic rejected
  show ?thesis by blast
qed

theorem service_failures_signalled_witness:
  "\<not> ok \<lparr> status = 409, json = (Inl ''Unexpected token'' :: string + string) \<rparr>
   \<and> setUsername (Inr \<lparr> status = 409, json = Inl ''Unexpected token'' \<rparr>)
       = (Inl (Error ERR_USERNAME_TAKEN) :: thrown + string)
   \<and> \<not> ok \<lparr> status = 500, json = (Inl ''Unexpected token'' :: string + string) \<rparr>
   \<and> setUsername (Inr \<lparr> status = 500, json = Inl ''Unexpected token'' \<rparr>)
       = (Inl (Error ERR_UNEXPECTED_ERROR) :: thrown + string)
   \<and> ok \<lparr> status = 200, json = (Inr ''body'' :: string + string) \<rparr>
   \<and> setUsername (Inr \<lparr> status = 200, json = Inr ''body'' \<rparr>) = (Inr ''body'' :: thrown + string)
   \<and> createUser_settled (Rejected (Error ERR_SIGNUP_REJECTED))
       = [SetError MSG_ERR_REJECTED, OnError MSG_ERR_REJECTED]
   \<and> createUser_settled (Rejected (TypeError ''Failed to fetch''))
       = [SetError MSG_ERR_GENERIC, OnError MSG_ERR_GENERIC]"
proof -
  let ?conflict = "\<lparr> status = 409, json = (Inl ''Unexpected token'' :: string + string) \<rparr>"
  let ?broken = "\<lparr> status = 500, json = (Inl ''Unexpected token'' :: string + string) \<rparr>"
  let ?fine = "\<lparr> status = 200, json = (Inr ''body'' :: string + string) \<rparr>"
  have ok: "\<not> ok ?conflict" "\<not> ok ?broken" "ok ?fine"
    by (simp_all add: ok_def)
  have other: "Some ''Failed to fetch'' \<noteq> Some ERR_SIGNUP_REJECTED"
    by (simp add: ERR_SIGNUP_REJECTED_def)
  have taken: "setUsername (Inr ?conflict) = Inl (Error ERR_USERNAME_TAKEN)"
    using service_failures_signalled [of ?conflict NonError None NonError] by simp
  have unexpected: "setUsername (Inr ?broken) = Inl (Error ERR_UNEXPECTED_ERROR)"
    using service_failures_signalled [of ?broken NonError None NonError] ok(2) by simp
  have body: "setUsername (Inr ?fine) = Inr ''body''"
    using service_failures_signalled [of ?fine NonError None NonError] ok(3) by simp
  have rejected: "createUser_settled (Rejected (Error ERR_SIGNUP_REJECTED))
      = [SetError MSG_ERR_REJECTED, OnError MSG_ERR_REJECTED]"
    using service_failures_signalled [of ?fine NonError None "Error ERR_SIGNUP_REJECTED"]
    by simp
  have generic: "createUser_settled (Rejected (TypeError ''Failed to fetch''))
      = [SetError MSG_ERR_GENERIC, OnError MSG_ERR_GENERIC]"
    using service_failures_signalled [of ?fine NonError None "TypeError ''Failed to fetch''"]
      other by simp
  from ok taken unexpected body rejected generic show ?thesis
    by simp
qed

end
